theory Spec2Isabelle
  imports Complex_Main
begin

section \<open>The product crawler of \<^verbatim>\<open>app.py\<close>\<close>

text \<open>
  The program polls a catalog API for one product, keeps the last seen status in a text
  file and sends one email when the product becomes available. Its three HTTP handlers
  (\<^verbatim>\<open>index\<close>, \<^verbatim>\<open>check_product\<close>, \<^verbatim>\<open>get_status\<close>) and four helpers
  (\<^verbatim>\<open>get_last_status\<close>, \<^verbatim>\<open>save_status\<close>, \<^verbatim>\<open>find_product\<close>, \<^verbatim>\<open>send_email\<close>) are
  embedded below, each under its own name.

  Everything outside the program is explicit. What the outer world answers during one
  request (the catalog's reply, whether the status file can be read or written, whether
  the mail provider accepts the request, the clock) is a record \<open>env\<close>; what persists
  between requests (the status file, and a history of what the program did) is a record
  \<open>world\<close> that every function takes and returns. An exception of the source is a value
  of the type \<open>exn\<close>, and every \<^verbatim>\<open>try\<close>/\<^verbatim>\<open>except\<close> is a case distinction on it.
\<close>

subsection \<open>Strings\<close>

text \<open>
  A Python \<^verbatim>\<open>str\<close> is a \<open>string\<close>; a \<open>char\<close> stands for the code point of the same
  number, so the strings of the model are the Python strings over code points below 256.
  On these, \<^verbatim>\<open>str.lower\<close> moves \<^verbatim>\<open>A..Z\<close> and the upper-case letters \<^verbatim>\<open>0xC0..0xDE\<close>
  (without the multiplication sign \<^verbatim>\<open>0xD7\<close>) up by 32 and leaves every other character
  alone, and \<^verbatim>\<open>str.strip\<close> removes the characters that \<^verbatim>\<open>str.isspace\<close> accepts from
  both ends.
\<close>

definition lower_char :: "char \<Rightarrow> char" where
  "lower_char c =
     (let n = (of_char c :: nat)
      in if (65 \<le> n \<and> n \<le> 90) \<or> (192 \<le> n \<and> n \<le> 222 \<and> n \<noteq> 215)
         then char_of (n + 32) else c)"

definition lower :: "string \<Rightarrow> string" where
  "lower s = map lower_char s"

definition isspace :: "char \<Rightarrow> bool" where
  "isspace c =
     (let n = (of_char c :: nat)
      in (9 \<le> n \<and> n \<le> 13) \<or> (28 \<le> n \<and> n \<le> 32) \<or> n = 133 \<or> n = 160)"

definition strip :: "string \<Rightarrow> string" where
  "strip s = rev (dropWhile isspace (rev (dropWhile isspace s)))"

definition str_bool :: "bool \<Rightarrow> string" where
  "str_bool b = (if b then ''True'' else ''False'')"

subsection \<open>JSON values and exceptions\<close>

text \<open>
  What \<^verbatim>\<open>resp.json()\<close> returns. An object is the association list of its members;
  \<open>map_of\<close> reads a member, as the parsed \<^verbatim>\<open>dict\<close> does for distinct keys.
\<close>

datatype json =
    JNull
  | JBool bool
  | JInt int
  | JFloat real
  | JStr string
  | JList "json list"
  | JObj "(string \<times> json) list"

datatype exn =
    RequestException
  | ValueError
  | KeyError string
  | TypeError
  | AttributeError
  | OSError

text \<open>Python's truth value of a JSON value, as \<^verbatim>\<open>not x\<close> and \<^verbatim>\<open>if x\<close> take it.\<close>

fun truthy :: "json \<Rightarrow> bool" where
  "truthy JNull = False"
| "truthy (JBool b) = b"
| "truthy (JInt n) = (n \<noteq> 0)"
| "truthy (JFloat x) = (x \<noteq> 0)"
| "truthy (JStr s) = (s \<noteq> [])"
| "truthy (JList xs) = (xs \<noteq> [])"
| "truthy (JObj kvs) = (kvs \<noteq> [])"

text \<open>\<^verbatim>\<open>x[key]\<close> with a string key: only a \<^verbatim>\<open>dict\<close> can answer.\<close>

fun subscript :: "json \<Rightarrow> string \<Rightarrow> exn + json" where
  "subscript (JObj kvs) key =
     (case map_of kvs key of None \<Rightarrow> Inl (KeyError key) | Some v \<Rightarrow> Inr v)"
| "subscript _ key = Inl TypeError"

text \<open>\<^verbatim>\<open>x.lower()\<close>: only a \<^verbatim>\<open>str\<close> has the method.\<close>

fun lower_method :: "json \<Rightarrow> exn + string" where
  "lower_method (JStr s) = Inr (lower s)"
| "lower_method _ = Inl AttributeError"

text \<open>
  \<^verbatim>\<open>for item in items\<close>: a list gives its elements, a \<^verbatim>\<open>dict\<close> its keys, a string its
  characters; nothing else can be iterated.
\<close>

fun iterate :: "json \<Rightarrow> exn + json list" where
  "iterate (JList xs) = Inr xs"
| "iterate (JObj kvs) = Inr (map (\<lambda>kv. JStr (fst kv)) kvs)"
| "iterate (JStr s) = Inr (map (\<lambda>c. JStr [c]) s)"
| "iterate _ = Inl TypeError"

text \<open>\<^verbatim>\<open>str(e)\<close> of a \<^verbatim>\<open>KeyError\<close> is the \<^verbatim>\<open>repr\<close> of the key; the text of the other
  exceptions is not modelled (\<open>check_product\<close> meets none of them, see
  \<open>find_product_is_object\<close>).\<close>

fun str_exn :: "exn \<Rightarrow> string" where
  "str_exn (KeyError k) = [CHR 0x27] @ k @ [CHR 0x27]"
| "str_exn _ = []"

subsection \<open>Configuration, environment and state\<close>

definition PRODUCTS_API :: string where
  "PRODUCTS_API = ''https://api.cervezaparranda.com/ms-auth/api/products/visibles''"

definition PRODUCT_NAME :: string where
  "PRODUCT_NAME = ''Pallet Malta Guajira 330ml''"

text \<open>The module-level settings read from the process environment.\<close>

record config =
  MAILJET_API_KEY :: string
  MAILJET_SECRET_KEY :: string
  SENDER_EMAIL :: string
  SENDER_NAME :: string
  RECIPIENT_EMAIL :: string

text \<open>
  The catalog's answer to the one POST of \<open>find_product\<close>: \<^verbatim>\<open>requests.post\<close>,
  \<^verbatim>\<open>raise_for_status\<close> or \<^verbatim>\<open>resp.json()\<close> raises, or the body parses to a JSON
  value.
\<close>

datatype api_reply = Raises exn | Parsed json

text \<open>
  \<^verbatim>\<open>open(STATUS_FILE, 'w')\<close> truncates the file before anything is written. So a write
  can fail in two ways: \<^verbatim>\<open>open\<close> raises and the file is as it was, or the file is
  opened (created, emptied) and writing or closing raises.
\<close>

datatype write_outcome = WriteOk | OpenRaises | WriteRaises

record env =
  catalog :: api_reply
  read_raises :: bool
  write_result :: write_outcome
  mailjet :: "string \<Rightarrow> string \<Rightarrow> bool"
  now :: string

text \<open>
  \<open>mailjet e key secret\<close> tells whether the provider answers the POST authenticated
  with \<open>(key, secret)\<close> with a success status; \<open>read_raises\<close> whether opening or reading
  an existing status file raises; \<open>now\<close> is the clock's ISO text.
\<close>

datatype level = INFO | ERROR

text \<open>
  \<open>status_file\<close> is the text of \<^verbatim>\<open>./static/product_status.txt\<close>, \<open>None\<close> when the file
  does not exist. The other fields are history: \<open>notifier_calls\<close> counts the calls of
  \<open>send_email\<close>, \<open>saved\<close> lists the arguments of the calls of \<open>save_status\<close>, and
  \<open>logged\<close> the log lines (level and fixed text; the interpolated exception text or
  time that follows it is left out).
\<close>

record world =
  status_file :: "string option"
  notifier_calls :: nat
  saved :: "string list"
  logged :: "(level \<times> string) list"

definition logging :: "level \<Rightarrow> string \<Rightarrow> world \<Rightarrow> world" where
  "logging l msg w = w\<lparr>logged := logged w @ [(l, msg)]\<rparr>"

record response =
  http_code :: nat
  body :: "(string \<times> json) list"

subsection \<open>Status store\<close>

definition get_last_status :: "env \<Rightarrow> world \<Rightarrow> string option \<times> world" where
  "get_last_status e w =
     (case status_file w of
        None \<Rightarrow> (None, w)
      | Some text \<Rightarrow>
          if read_raises e then (None, logging ERROR ''Error reading status file: '' w)
          else (Some (strip text), w))"

definition save_status :: "env \<Rightarrow> string \<Rightarrow> world \<Rightarrow> world" where
  "save_status e status w0 =
     (let w = w0\<lparr>saved := saved w0 @ [status]\<rparr>
      in case write_result e of
           WriteOk \<Rightarrow> w\<lparr>status_file := Some status\<rparr>
         | OpenRaises \<Rightarrow> logging ERROR ''Error saving status file: '' w
         | WriteRaises \<Rightarrow>
             logging ERROR ''Error saving status file: '' (w\<lparr>status_file := Some []\<rparr>))"

subsection \<open>Catalog client\<close>

text \<open>The loop of \<open>find_product\<close> over the items, with the exceptions it can raise.\<close>

fun scan :: "json list \<Rightarrow> exn + json option" where
  "scan [] = Inr None"
| "scan (item # items) =
     (case subscript item ''name'' of
        Inl ex \<Rightarrow> Inl ex
      | Inr name \<Rightarrow>
          (case lower_method name of
             Inl ex \<Rightarrow> Inl ex
           | Inr s \<Rightarrow> if lower PRODUCT_NAME = s then Inr (Some item) else scan items))"

text \<open>The body of the \<^verbatim>\<open>try\<close> block.\<close>

definition find_product_body :: "api_reply \<Rightarrow> exn + json option" where
  "find_product_body r =
     (case r of
        Raises ex \<Rightarrow> Inl ex
      | Parsed items \<Rightarrow>
          (case iterate items of Inl ex \<Rightarrow> Inl ex | Inr xs \<Rightarrow> scan xs))"

definition find_product :: "env \<Rightarrow> world \<Rightarrow> json option \<times> world" where
  "find_product e w =
     (case find_product_body (catalog e) of
        Inr product \<Rightarrow> (product, w)
      | Inl RequestException \<Rightarrow> (None, logging ERROR ''Error calling products API: '' w)
      | Inl _ \<Rightarrow> (None, logging ERROR ''Error parsing products API response: '' w))"

subsection \<open>Notifier\<close>

definition send_email :: "config \<Rightarrow> env \<Rightarrow> world \<Rightarrow> bool \<times> world" where
  "send_email cfg e w0 =
     (let w = w0\<lparr>notifier_calls := Suc (notifier_calls w0)\<rparr>
      in if mailjet e (MAILJET_API_KEY cfg) (MAILJET_SECRET_KEY cfg)
         then (True, logging INFO ''Email notification sent successfully via Mailjet'' w)
         else (False, logging ERROR ''Error sending email via Mailjet: '' w))"

subsection \<open>Request handlers\<close>

definition index :: "config \<Rightarrow> response" where
  "index cfg =
     \<lparr>http_code = 200,
      body = [(''status'', JStr ''running''),
              (''product'', JStr PRODUCT_NAME),
              (''url'', JStr PRODUCTS_API),
              (''message'',
               JStr ''Product crawler is active. Use /check endpoint to run the crawler.''),
              (''email_configured'',
               JBool (MAILJET_API_KEY cfg \<noteq> [] \<and> MAILJET_SECRET_KEY cfg \<noteq> []))]\<rparr>"

definition error_response :: "string \<Rightarrow> env \<Rightarrow> response" where
  "error_response msg e =
     \<lparr>http_code = 500,
      body = [(''status'', JStr ''error''),
              (''message'', JStr msg),
              (''timestamp'', JStr (now e))]\<rparr>"

definition success_response :: "string \<Rightarrow> string \<Rightarrow> string option \<Rightarrow> env \<Rightarrow> response" where
  "success_response current_status message last_status e =
     \<lparr>http_code = 200,
      body = [(''status'', JStr ''success''),
              (''product_status'', JStr current_status),
              (''message'', JStr message),
              (''previous_status'',
               (case last_status of None \<Rightarrow> JNull | Some s \<Rightarrow> JStr s)),
              (''timestamp'', JStr (now e))]\<rparr>"

text \<open>
  The \<^verbatim>\<open>if\<close>/\<^verbatim>\<open>else\<close> of \<open>check_product\<close> that determines the current status, the
  message, and whether to notify.
\<close>

definition determine_status ::
    "config \<Rightarrow> env \<Rightarrow> json \<Rightarrow> string option \<Rightarrow> world \<Rightarrow> string \<times> string \<times> world" where
  "determine_status cfg e stock last_status w =
     (if \<not> truthy stock then
        (''unavailable'', ''Product still doesn't have stock.'',
         logging INFO ''Product still doesn't have stock.'' w)
      else
        let w1 = logging INFO ''Product is AVAILABLE now!'' w
        in if last_status \<noteq> Some ''available'' then
             (case send_email cfg e w1 of
                (email_sent, w2) \<Rightarrow>
                  (''available'',
                   ''Product is AVAILABLE now!'' @ '' | Email sent: '' @ str_bool email_sent,
                   w2))
           else (''available'', ''Product is AVAILABLE now!'', w1))"

definition not_found_message :: string where
  "not_found_message =
     ''Product '' @ [CHR 0x27] @ PRODUCT_NAME @ [CHR 0x27] @ '' not found in API response''"

definition check_product :: "config \<Rightarrow> env \<Rightarrow> world \<Rightarrow> response \<times> world" where
  "check_product cfg e w0 =
     (case find_product e (logging INFO ''Checking product status at '' w0) of
        (product, w1) \<Rightarrow>
          (case product of
             None \<Rightarrow>
               (error_response not_found_message e, w1)
           | Some p \<Rightarrow>
               if \<not> truthy p then
                 (error_response not_found_message e, w1)
               else
                 (case get_last_status e w1 of
                    (last_status, w2) \<Rightarrow>
                      (case subscript p ''hasStock'' of
                         Inl ex \<Rightarrow>
                           (error_response (str_exn ex) e,
                            logging ERROR ''Unexpected error: '' w2)
                       | Inr stock \<Rightarrow>
                           (case determine_status cfg e stock last_status w2 of
                              (current_status, message, w3) \<Rightarrow>
                                (success_response current_status message last_status e,
                                 save_status e current_status w3))))))"

definition get_status :: "env \<Rightarrow> world \<Rightarrow> response \<times> world" where
  "get_status e w =
     (case get_last_status e w of
        (last_status, w1) \<Rightarrow>
          (\<lparr>http_code = 200,
            body = [(''last_status'',
                     (case last_status of None \<Rightarrow> JNull | Some s \<Rightarrow> JStr s)),
                    (''timestamp'', JStr (now e))]\<rparr>, w1))"

text \<open>A sequence of requests, each with the environment it meets.\<close>

datatype request = Index | Check env | Status env

fun handle :: "config \<Rightarrow> request \<Rightarrow> world \<Rightarrow> response \<times> world" where
  "handle cfg Index w = (index cfg, w)"
| "handle cfg (Check e) w = check_product cfg e w"
| "handle cfg (Status e) w = get_status e w"

fun run :: "config \<Rightarrow> request list \<Rightarrow> world \<Rightarrow> world" where
  "run cfg [] w = w"
| "run cfg (r # rs) w = run cfg rs (snd (handle cfg r w))"

subsection \<open>Notions of the specification\<close>

text \<open>A member of a response body, as the client reads it from the JSON.\<close>

definition field :: "response \<Rightarrow> string \<Rightarrow> json option" where
  "field r key = map_of (body r) key"

text \<open>
  A product record is well formed when it is an object with a string name; it matches
  when that name equals the configured one up to case. \<open>first_match\<close> follows the
  specification's words: the first matching record of the list, absent when there is
  none.
\<close>

definition has_name :: "json \<Rightarrow> bool" where
  "has_name item =
     (case subscript item ''name'' of Inr (JStr s) \<Rightarrow> True | _ \<Rightarrow> False)"

definition name_matches :: "json \<Rightarrow> bool" where
  "name_matches item =
     (case subscript item ''name'' of
        Inr (JStr s) \<Rightarrow> lower s = lower PRODUCT_NAME
      | _ \<Rightarrow> False)"

definition first_match :: "json list \<Rightarrow> json option" where
  "first_match items = List.find name_matches items"

text \<open>The two status literals, and the two readings of "the file holds a status".\<close>

definition valid_status :: "string \<Rightarrow> bool" where
  "valid_status s = (s = ''available'' \<or> s = ''unavailable'')"

definition holds_status :: "string option \<Rightarrow> bool" where
  "holds_status f = (case f of None \<Rightarrow> False | Some s \<Rightarrow> valid_status s)"

definition absent_or_valid :: "string option \<Rightarrow> bool" where
  "absent_or_valid f = (case f of None \<Rightarrow> True | Some s \<Rightarrow> valid_status s)"

text \<open>A request whose write, if it makes one, does not fail after the file was opened.\<close>

fun no_torn_write :: "request \<Rightarrow> bool" where
  "no_torn_write (Check e) = (write_result e \<noteq> WriteRaises)"
| "no_torn_write _ = True"

subsection \<open>Concrete inputs\<close>

text \<open>
  The target product as the catalog lists it, spelled in upper case, with a stock flag;
  a record without a name; another product.
\<close>

definition target_product :: "bool \<Rightarrow> json" where
  "target_product stock =
     JObj [(''name'', JStr ''PALLET MALTA GUAJIRA 330ML''), (''hasStock'', JBool stock)]"

definition nameless_record :: json where
  "nameless_record = JObj [(''hasStock'', JBool True)]"

definition other_product :: json where
  "other_product = JObj [(''name'', JStr ''Cerveza Parranda 355ml''), (''hasStock'', JBool True)]"

text \<open>
  An environment in which the catalog answers with the given reply, the status file
  can be read and written, and the mail provider accepts exactly the requests that carry
  a key and a secret.
\<close>

definition env_with :: "api_reply \<Rightarrow> env" where
  "env_with reply =
     \<lparr>catalog = reply, read_raises = False, write_result = WriteOk,
      mailjet = (\<lambda>key secret. key \<noteq> [] \<and> secret \<noteq> []),
      now = ''2026-01-01T00:00:00''\<rparr>"

definition world_with :: "string option \<Rightarrow> world" where
  "world_with f = \<lparr>status_file = f, notifier_calls = 0, saved = [], logged = []\<rparr>"

definition unconfigured :: config where
  "unconfigured =
     \<lparr>MAILJET_API_KEY = [], MAILJET_SECRET_KEY = [],
      SENDER_EMAIL = ''your_email@example.com'', SENDER_NAME = ''Product Crawler'',
      RECIPIENT_EMAIL = ''recipient@example.com''\<rparr>"

section \<open>Properties\<close>

subsection \<open>What the helpers do\<close>

text \<open>A product that \<open>find_product\<close> returns is a non-empty object, hence true for
  \<^verbatim>\<open>if not product\<close>; finding it writes no log line.\<close>

lemma scan_Some_object:
  "scan xs = Inr (Some p) \<Longrightarrow> \<exists>kvs. p = JObj kvs \<and> map_of kvs ''name'' \<noteq> None"
proof (induction xs)
  case Nil
  then show ?case by simp
next
  case (Cons item xs)
  show ?case
  proof (cases item)
    case (JObj kvs)
    with Cons show ?thesis
      by (auto split: option.splits sum.splits if_splits)
  qed (use Cons.prems in simp_all)
qed

lemma find_product_Some:
  assumes "fst (find_product e w) = Some p"
  shows "find_product_body (catalog e) = Inr (Some p)"
  using assms by (auto simp: find_product_def split: sum.splits exn.splits)

lemma find_product_found:
  assumes "fst (find_product e w) = Some p"
  shows "find_product e w' = (Some p, w')"
  using find_product_Some [OF assms] by (simp add: find_product_def)

lemma find_product_body_object:
  assumes "find_product_body r = Inr (Some p)"
  shows "\<exists>kvs. p = JObj kvs \<and> map_of kvs ''name'' \<noteq> None"
  using assms scan_Some_object
  by (auto simp: find_product_body_def split: api_reply.splits sum.splits)

lemma find_product_is_object:
  assumes "fst (find_product e w) = Some p"
  shows "\<exists>kvs. p = JObj kvs \<and> kvs \<noteq> []"
proof -
  from find_product_body_object [OF find_product_Some [OF assms]]
  obtain kvs where "p = JObj kvs" and "map_of kvs ''name'' \<noteq> None" by blast
  then show ?thesis by auto
qed

lemma find_product_truthy:
  "fst (find_product e w) = Some p \<Longrightarrow> truthy p"
  using find_product_is_object [of e w p] by auto

lemma find_product_None:
  assumes "fst (find_product e w) = None"
  shows "fst (find_product e w') = None"
    and "status_file (snd (find_product e w')) = status_file w'"
    and "notifier_calls (snd (find_product e w')) = notifier_calls w'"
    and "saved (snd (find_product e w')) = saved w'"
  using assms
  by (auto simp: find_product_def logging_def split: sum.splits exn.splits)

text \<open>A request that raises gives absent, whatever the exception.\<close>

lemma find_product_Raises:
  "catalog e = Raises ex \<Longrightarrow> fst (find_product e w) = None"
  by (simp add: find_product_def find_product_body_def split: exn.splits)

lemma get_last_status_fst:
  "status_file w' = status_file w \<Longrightarrow> fst (get_last_status e w') = fst (get_last_status e w)"
  by (simp add: get_last_status_def split: option.splits)

lemma get_last_status_frame:
  "status_file (snd (get_last_status e w)) = status_file w"
  "notifier_calls (snd (get_last_status e w)) = notifier_calls w"
  "saved (snd (get_last_status e w)) = saved w"
  by (simp_all add: get_last_status_def logging_def split: option.splits)

lemma check_product_absent:
  assumes "fst (find_product e w) = None"
  shows "check_product cfg e w =
     (error_response not_found_message e,
      snd (find_product e (logging INFO ''Checking product status at '' w)))"
proof (cases "find_product e (logging INFO ''Checking product status at '' w)")
  case (Pair product w1)
  with find_product_None(1) [OF assms, of "logging INFO ''Checking product status at '' w"]
  have "product = None" by simp
  with Pair show ?thesis by (simp add: check_product_def)
qed

lemma check_product_found:
  assumes "fst (find_product e w) = Some p"
    and "subscript p ''hasStock'' = Inr v"
  shows "check_product cfg e w =
     (case get_last_status e (logging INFO ''Checking product status at '' w) of
        (last_status, w2) \<Rightarrow>
          (case determine_status cfg e v last_status w2 of
             (current_status, message, w3) \<Rightarrow>
               (success_response current_status message last_status e,
                save_status e current_status w3)))"
  using find_product_found [OF assms(1), of "logging INFO ''Checking product status at '' w"]
    find_product_truthy [OF assms(1)] assms(2)
  by (simp add: check_product_def)


lemma determine_status_fst:
  "fst (determine_status cfg e stock prior w) =
     (if truthy stock then ''available'' else ''unavailable'')"
  by (simp add: determine_status_def Let_def split: prod.splits)

lemma determine_status_frame:
  "status_file (snd (snd (determine_status cfg e stock prior w))) = status_file w"
  "saved (snd (snd (determine_status cfg e stock prior w))) = saved w"
  by (simp_all add: determine_status_def send_email_def logging_def Let_def)

lemma determine_status_notifier:
  "notifier_calls (snd (snd (determine_status cfg e stock prior w))) =
     (if truthy stock \<and> prior \<noteq> Some ''available''
      then Suc (notifier_calls w) else notifier_calls w)"
  by (simp add: determine_status_def send_email_def logging_def Let_def)

lemma save_status_frame:
  "notifier_calls (save_status e s w) = notifier_calls w"
  "saved (save_status e s w) = saved w @ [s]"
  by (simp_all add: save_status_def logging_def Let_def split: write_outcome.splits)

lemma save_status_file:
  "status_file (save_status e s w) =
     (case write_result e of
        WriteOk \<Rightarrow> Some s | OpenRaises \<Rightarrow> status_file w | WriteRaises \<Rightarrow> Some [])"
  by (simp add: save_status_def logging_def Let_def split: write_outcome.splits)

lemma logging_frame:
  "status_file (logging l m w) = status_file w"
  "notifier_calls (logging l m w) = notifier_calls w"
  "saved (logging l m w) = saved w"
  by (simp_all add: logging_def)

text \<open>The whole effect of a check that found the product and its stock flag.\<close>

lemma check_product_found_world:
  assumes "fst (find_product e w) = Some p"
    and "subscript p ''hasStock'' = Inr v"
  shows "notifier_calls (snd (check_product cfg e w)) =
           (if truthy v \<and> fst (get_last_status e w) \<noteq> Some ''available''
            then Suc (notifier_calls w) else notifier_calls w)"
    and "saved (snd (check_product cfg e w)) =
           saved w @ [if truthy v then ''available'' else ''unavailable'']"
    and "status_file (snd (check_product cfg e w)) =
           (case write_result e of
              WriteOk \<Rightarrow> Some (if truthy v then ''available'' else ''unavailable'')
            | OpenRaises \<Rightarrow> status_file w
            | WriteRaises \<Rightarrow> Some [])"
proof -
  let ?w1 = "logging INFO ''Checking product status at '' w"
  obtain prior w2 where g: "get_last_status e ?w1 = (prior, w2)"
    by (cases "get_last_status e ?w1")
  obtain cs m w3 where d: "determine_status cfg e v prior w2 = (cs, m, w3)"
    by (cases "determine_status cfg e v prior w2")
  have c: "check_product cfg e w = (success_response cs m prior e, save_status e cs w3)"
    using check_product_found [OF assms, of cfg] g d by simp
  have prior: "prior = fst (get_last_status e w)"
    using g get_last_status_fst [of ?w1 w e] by (simp add: logging_frame)
  have w2: "status_file w2 = status_file w" "notifier_calls w2 = notifier_calls w"
    "saved w2 = saved w"
    using g get_last_status_frame [of e ?w1] by (simp_all add: logging_frame)
  have cs: "cs = (if truthy v then ''available'' else ''unavailable'')"
    using d determine_status_fst [of cfg e v prior w2] by simp
  have w3: "status_file w3 = status_file w" "saved w3 = saved w"
    using d determine_status_frame [of cfg e v prior w2] w2 by simp_all
  have n3: "notifier_calls w3 =
      (if truthy v \<and> prior \<noteq> Some ''available''
       then Suc (notifier_calls w) else notifier_calls w)"
    using d determine_status_notifier [of cfg e v prior w2] w2 by simp
  show "notifier_calls (snd (check_product cfg e w)) =
           (if truthy v \<and> fst (get_last_status e w) \<noteq> Some ''available''
            then Suc (notifier_calls w) else notifier_calls w)"
    using c n3 prior by (simp add: save_status_frame)
  show "saved (snd (check_product cfg e w)) =
           saved w @ [if truthy v then ''available'' else ''unavailable'']"
    using c cs w3 by (simp add: save_status_frame)
  show "status_file (snd (check_product cfg e w)) =
           (case write_result e of
              WriteOk \<Rightarrow> Some (if truthy v then ''available'' else ''unavailable'')
            | OpenRaises \<Rightarrow> status_file w
            | WriteRaises \<Rightarrow> Some [])"
    using c cs w3 by (simp add: save_status_file split: write_outcome.splits)
qed

lemma check_product_no_stock_field:
  assumes "fst (find_product e w) = Some p"
    and "subscript p ''hasStock'' = Inl ex"
  shows "check_product cfg e w =
     (error_response (str_exn ex) e,
      logging ERROR ''Unexpected error: ''
        (snd (get_last_status e (logging INFO ''Checking product status at '' w))))"
  using find_product_found [OF assms(1), of "logging INFO ''Checking product status at '' w"]
    find_product_truthy [OF assms(1)] assms(2)
  by (simp add: check_product_def split: prod.splits)

lemma determine_status_message:
  "fst (snd (determine_status cfg e stock prior w)) =
     (if \<not> truthy stock then ''Product still doesn't have stock.''
      else if prior \<noteq> Some ''available''
      then ''Product is AVAILABLE now! | Email sent: ''
             @ str_bool (mailjet e (MAILJET_API_KEY cfg) (MAILJET_SECRET_KEY cfg))
      else ''Product is AVAILABLE now!'')"
  by (simp add: determine_status_def send_email_def Let_def)

lemma check_product_found_response:
  assumes "fst (find_product e w) = Some p"
    and "subscript p ''hasStock'' = Inr v"
  shows "fst (check_product cfg e w) =
           success_response (if truthy v then ''available'' else ''unavailable'')
             (fst (snd (determine_status cfg e v (fst (get_last_status e w)) w)))
             (fst (get_last_status e w)) e"
proof -
  let ?w1 = "logging INFO ''Checking product status at '' w"
  obtain prior w2 where g: "get_last_status e ?w1 = (prior, w2)"
    by (cases "get_last_status e ?w1")
  obtain cs m w3 where d: "determine_status cfg e v prior w2 = (cs, m, w3)"
    by (cases "determine_status cfg e v prior w2")
  have c: "check_product cfg e w = (success_response cs m prior e, save_status e cs w3)"
    using check_product_found [OF assms, of cfg] g d by simp
  have prior: "prior = fst (get_last_status e w)"
    using g get_last_status_fst [of ?w1 w e] by (simp add: logging_frame)
  have cs: "cs = (if truthy v then ''available'' else ''unavailable'')"
    using d determine_status_fst [of cfg e v prior w2] by simp
  have m: "m = fst (snd (determine_status cfg e v prior w))"
    using d determine_status_message [of cfg e v prior w2]
      determine_status_message [of cfg e v prior w] by simp
  show ?thesis using c prior cs m by simp
qed

lemma field_success_response:
  "http_code (success_response cs m prior e) = 200"
  "field (success_response cs m prior e) ''status'' = Some (JStr ''success'')"
  "field (success_response cs m prior e) ''product_status'' = Some (JStr cs)"
  "field (success_response cs m prior e) ''message'' = Some (JStr m)"
  by (simp_all add: success_response_def field_def)

lemma field_error_response:
  "http_code (error_response m e) = 500"
  "field (error_response m e) ''status'' = Some (JStr ''error'')"
  "field (error_response m e) ''message'' = Some (JStr m)"
  "field (error_response m e) ''product_status'' = None"
  by (simp_all add: error_response_def field_def)

subsection \<open>The check handler\<close>

text \<open>
  Claim C1. Whenever the catalog client returns the target product with
  \<^verbatim>\<open>hasStock = true\<close> and the status read from the status store is not
  \<^verbatim>\<open>available\<close> (absent included), \<open>check_product\<close> calls the notifier exactly once
  and calls \<open>save_status\<close> exactly once, with \<^verbatim>\<open>available\<close>; when that write
  succeeds the file then holds \<^verbatim>\<open>available\<close>.
\<close>

theorem check_notifies_once_on_transition:
  assumes "fst (find_product e w) = Some p"
    and "subscript p ''hasStock'' = Inr (JBool True)"
    and "fst (get_last_status e w) \<noteq> Some ''available''"
  shows "notifier_calls (snd (check_product cfg e w)) = notifier_calls w + 1
       \<and> saved (snd (check_product cfg e w)) = saved w @ [''available'']
       \<and> (write_result e = WriteOk \<longrightarrow>
            status_file (snd (check_product cfg e w)) = Some ''available'')"
  using check_product_found_world [OF assms(1,2), of cfg] assms(3) by simp

text \<open>The catalog lists another product and then the target, which is in stock; the file
  holds \<^verbatim>\<open>unavailable\<close>.\<close>

lemma target_product_found:
  "fst (find_product (env_with (Parsed (JList [other_product, target_product b]))) w)
     = Some (target_product b)"
  by code_simp

theorem check_notifies_once_on_transition_witness:
  "fst (get_last_status (env_with (Parsed (JList [other_product, target_product True])))
          (world_with (Some ''unavailable''))) \<noteq> Some ''available''
   \<and> notifier_calls (snd (check_product unconfigured
          (env_with (Parsed (JList [other_product, target_product True])))
          (world_with (Some ''unavailable'')))) = 1
   \<and> saved (snd (check_product unconfigured
          (env_with (Parsed (JList [other_product, target_product True])))
          (world_with (Some ''unavailable'')))) = [''available'']
   \<and> status_file (snd (check_product unconfigured
          (env_with (Parsed (JList [other_product, target_product True])))
          (world_with (Some ''unavailable'')))) = Some ''available''"
proof -
  let ?e = "env_with (Parsed (JList [other_product, target_product True]))"
  let ?w = "world_with (Some ''unavailable'')"
  have h1: "fst (find_product ?e ?w) = Some (target_product True)"
    by (rule target_product_found)
  have h2: "subscript (target_product True) ''hasStock'' = Inr (JBool True)"
    by (simp add: target_product_def)
  have h3: "fst (get_last_status ?e ?w) \<noteq> Some ''available''"
    by (simp add: get_last_status_def env_with_def world_with_def strip_def isspace_def)
  have h4: "write_result ?e = WriteOk"
    by (simp add: env_with_def)
  show ?thesis
    using check_notifies_once_on_transition [OF h1 h2 h3, of unconfigured] h3 h4
    by (simp add: world_with_def)
qed


text \<open>
  Claim C2. Whenever the catalog client returns the target product with
  \<^verbatim>\<open>hasStock = false\<close>, \<open>check_product\<close> answers with success and
  \<^verbatim>\<open>product_status = unavailable\<close> and does not call the notifier, whatever the status
  file holds and whether or not it can be read.
\<close>

theorem check_out_of_stock_is_unavailable:
  assumes "fst (find_product e w) = Some p"
    and "subscript p ''hasStock'' = Inr (JBool False)"
  shows "http_code (fst (check_product cfg e w)) = 200
       \<and> field (fst (check_product cfg e w)) ''product_status'' = Some (JStr ''unavailable'')
       \<and> notifier_calls (snd (check_product cfg e w)) = notifier_calls w"
  using check_product_found_world(1) [OF assms, of cfg]
    check_product_found_response [OF assms, of cfg]
  by (simp add: field_success_response)

theorem check_out_of_stock_is_unavailable_witness:
  "field (fst (check_product unconfigured
          (env_with (Parsed (JList [other_product, target_product False])))
          (world_with (Some ''available'')))) ''product_status'' = Some (JStr ''unavailable'')
   \<and> notifier_calls (snd (check_product unconfigured
          (env_with (Parsed (JList [other_product, target_product False])))
          (world_with (Some ''available'')))) = 0"
proof -
  let ?e = "env_with (Parsed (JList [other_product, target_product False]))"
  let ?w = "world_with (Some ''available'')"
  have h1: "fst (find_product ?e ?w) = Some (target_product False)"
    by (rule target_product_found)
  have h2: "subscript (target_product False) ''hasStock'' = Inr (JBool False)"
    by (simp add: target_product_def)
  show ?thesis
    using check_out_of_stock_is_unavailable [OF h1 h2, of unconfigured]
    by (simp add: world_with_def)
qed

text \<open>
  Claim C3, as stated: whenever the persisted status is exactly \<^verbatim>\<open>available\<close> and
  the catalog client returns the target product with \<^verbatim>\<open>hasStock = true\<close>,
  \<open>check_product\<close> does not call the notifier. It fails when the file holds
  \<^verbatim>\<open>available\<close> but reading it raises: \<open>get_last_status\<close> then returns absent,
  which is not \<^verbatim>\<open>available\<close>, and the notifier is called again.
\<close>

theorem check_still_available_is_silent_counterexample:
  "status_file (world_with (Some ''available'')) = Some ''available''
   \<and> fst (find_product (env_with (Parsed (JList [target_product True]))\<lparr>read_raises := True\<rparr>)
        (world_with (Some ''available''))) = Some (target_product True)
   \<and> subscript (target_product True) ''hasStock'' = Inr (JBool True)
   \<and> fst (get_last_status (env_with (Parsed (JList [target_product True]))\<lparr>read_raises := True\<rparr>)
        (world_with (Some ''available''))) = None
   \<and> notifier_calls (world_with (Some ''available'')) = 0
   \<and> notifier_calls (snd (check_product unconfigured
        (env_with (Parsed (JList [target_product True]))\<lparr>read_raises := True\<rparr>)
        (world_with (Some ''available'')))) = 1"
proof -
  let ?e = "env_with (Parsed (JList [target_product True]))\<lparr>read_raises := True\<rparr>"
  let ?w = "world_with (Some ''available'')"
  have found: "fst (find_product ?e ?w) = Some (target_product True)"
    by code_simp
  have stock: "subscript (target_product True) ''hasStock'' = Inr (JBool True)"
    by (simp add: target_product_def)
  have prior: "fst (get_last_status ?e ?w) = None"
    by (simp add: get_last_status_def world_with_def)
  have "notifier_calls (snd (check_product unconfigured ?e ?w)) = Suc (notifier_calls ?w)"
    using check_product_found_world(1) [OF found stock, of unconfigured] prior by simp
  then have calls: "notifier_calls (snd (check_product unconfigured ?e ?w)) = 1"
    by (simp add: world_with_def)
  show ?thesis
    using found stock prior calls by (simp add: world_with_def)
qed

text \<open>
  Claim C3, amended. Whenever the persisted status is exactly \<^verbatim>\<open>available\<close>, the
  handler's read of the status file does not fail, and the catalog client returns the
  target product with \<^verbatim>\<open>hasStock = true\<close>, \<open>check_product\<close> does not call the
  notifier.
\<close>

theorem check_still_available_is_silent:
  assumes "fst (find_product e w) = Some p"
    and "subscript p ''hasStock'' = Inr (JBool True)"
    and "status_file w = Some ''available''"
    and "\<not> read_raises e"
  shows "notifier_calls (snd (check_product cfg e w)) = notifier_calls w"
proof -
  have "fst (get_last_status e w) = Some ''available''"
    using assms(3,4) by (simp add: get_last_status_def strip_def isspace_def)
  then show ?thesis
    using check_product_found_world(1) [OF assms(1,2), of cfg] by simp
qed

theorem check_still_available_is_silent_witness:
  "status_file (world_with (Some ''available'')) = Some ''available''
   \<and> \<not> read_raises (env_with (Parsed (JList [other_product, target_product True])))
   \<and> notifier_calls (snd (check_product unconfigured
          (env_with (Parsed (JList [other_product, target_product True])))
          (world_with (Some ''available'')))) = 0"
proof -
  let ?e = "env_with (Parsed (JList [other_product, target_product True]))"
  let ?w = "world_with (Some ''available'')"
  have h1: "fst (find_product ?e ?w) = Some (target_product True)"
    by (rule target_product_found)
  have h2: "subscript (target_product True) ''hasStock'' = Inr (JBool True)"
    by (simp add: target_product_def)
  have h3: "status_file ?w = Some ''available''"
    by (simp add: world_with_def)
  have h4: "\<not> read_raises ?e"
    by (simp add: env_with_def)
  show ?thesis
    using check_still_available_is_silent [OF h1 h2 h3 h4, of unconfigured] h3 h4
    by (simp add: world_with_def)
qed

text \<open>
  Claim C4. Whenever the catalog client returns absent (no matching product, a failed
  request, or a reply that cannot be read as a list of records), \<open>check_product\<close>
  answers with HTTP status 500 and an error body, does not call the notifier, does not
  call \<open>save_status\<close>, and leaves the status file as it was.
\<close>

theorem check_absent_is_error:
  assumes "fst (find_product e w) = None"
  shows "http_code (fst (check_product cfg e w)) = 500
       \<and> field (fst (check_product cfg e w)) ''status'' = Some (JStr ''error'')
       \<and> field (fst (check_product cfg e w)) ''message'' = Some (JStr not_found_message)
       \<and> notifier_calls (snd (check_product cfg e w)) = notifier_calls w
       \<and> saved (snd (check_product cfg e w)) = saved w
       \<and> status_file (snd (check_product cfg e w)) = status_file w"
  using check_product_absent [OF assms, of cfg] find_product_None(2-4) [OF assms]
  by (simp add: field_error_response logging_frame)

lemma find_product_absent_cases:
  "fst (find_product (env_with (Raises RequestException)) w) = None"
  "fst (find_product (env_with (Raises ValueError)) w) = None"
  "fst (find_product (env_with (Parsed (JList [other_product]))) w) = None"
  "fst (find_product (env_with (Parsed (JStr ''Bad Gateway''))) w) = None"
  by code_simp+

theorem check_absent_is_error_witness:
  "fst (find_product (env_with (Parsed (JList [other_product])))
         (world_with (Some ''unavailable''))) = None
   \<and> http_code (fst (check_product unconfigured (env_with (Parsed (JList [other_product])))
         (world_with (Some ''unavailable'')))) = 500
   \<and> notifier_calls (snd (check_product unconfigured (env_with (Parsed (JList [other_product])))
         (world_with (Some ''unavailable'')))) = 0
   \<and> status_file (snd (check_product unconfigured (env_with (Parsed (JList [other_product])))
         (world_with (Some ''unavailable'')))) = Some ''unavailable''"
proof -
  let ?e = "env_with (Parsed (JList [other_product]))"
  let ?w = "world_with (Some ''unavailable'')"
  have h: "fst (find_product ?e ?w) = None"
    by (rule find_product_absent_cases)
  show ?thesis
    using check_absent_is_error [OF h, of unconfigured] h
    by (simp add: world_with_def)
qed


subsection \<open>Failing writes\<close>

text \<open>Nothing but \<open>save_status\<close> looks at the outcome of the write.\<close>

lemma write_result_irrelevant:
  "find_product (e\<lparr>write_result := x\<rparr>) w = find_product e w"
  "get_last_status (e\<lparr>write_result := x\<rparr>) w = get_last_status e w"
  "determine_status cfg (e\<lparr>write_result := x\<rparr>) v prior w = determine_status cfg e v prior w"
  "success_response cs m prior (e\<lparr>write_result := x\<rparr>) = success_response cs m prior e"
  by (simp_all add: find_product_def get_last_status_def determine_status_def
      send_email_def success_response_def Let_def split: option.splits)

lemma save_status_logs_failure:
  "write_result e \<noteq> WriteOk \<Longrightarrow>
     last (logged (save_status e s w)) = (ERROR, ''Error saving status file: '')"
  by (simp add: save_status_def logging_def Let_def split: write_outcome.splits)

lemma check_product_found_logged:
  assumes "fst (find_product e w) = Some p"
    and "subscript p ''hasStock'' = Inr v"
  shows "\<exists>s w3. snd (check_product cfg e w) = save_status e s w3"
proof -
  let ?w1 = "logging INFO ''Checking product status at '' w"
  obtain prior w2 where g: "get_last_status e ?w1 = (prior, w2)"
    by (cases "get_last_status e ?w1")
  obtain cs m w3 where d: "determine_status cfg e v prior w2 = (cs, m, w3)"
    by (cases "determine_status cfg e v prior w2")
  have "check_product cfg e w = (success_response cs m prior e, save_status e cs w3)"
    using check_product_found [OF assms, of cfg] g d by simp
  then show ?thesis by auto
qed

text \<open>
  Claim C6. Whenever the catalog client returns the target product (with its stock
  flag, so that a status is computed and written) and the write to the status store
  fails, \<open>check_product\<close> still answers with success and with the status it computed:
  the very response it gives when the write succeeds. The failure is the last line of
  the log.
\<close>

theorem check_survives_write_failure:
  assumes "fst (find_product e w) = Some p"
    and "subscript p ''hasStock'' = Inr v"
    and "write_result e \<noteq> WriteOk"
  shows "http_code (fst (check_product cfg e w)) = 200
       \<and> field (fst (check_product cfg e w)) ''status'' = Some (JStr ''success'')
       \<and> field (fst (check_product cfg e w)) ''product_status'' =
           Some (JStr (if truthy v then ''available'' else ''unavailable''))
       \<and> fst (check_product cfg (e\<lparr>write_result := WriteOk\<rparr>) w) = fst (check_product cfg e w)
       \<and> last (logged (snd (check_product cfg e w))) = (ERROR, ''Error saving status file: '')"
proof -
  let ?e = "e\<lparr>write_result := WriteOk\<rparr>"
  have found: "fst (find_product ?e w) = Some p"
    using assms(1) by (simp add: write_result_irrelevant)
  have same: "fst (check_product cfg ?e w) = fst (check_product cfg e w)"
    using check_product_found_response [OF assms(1,2), of cfg]
      check_product_found_response [OF found assms(2), of cfg]
    by (simp add: write_result_irrelevant)
  obtain s w3 where "snd (check_product cfg e w) = save_status e s w3"
    using check_product_found_logged [OF assms(1,2), of cfg] by blast
  then have logged: "last (logged (snd (check_product cfg e w))) =
      (ERROR, ''Error saving status file: '')"
    using save_status_logs_failure [OF assms(3)] by simp
  show ?thesis
    using check_product_found_response [OF assms(1,2), of cfg] same logged
    by (simp add: field_success_response)
qed

theorem check_survives_write_failure_witness:
  "write_result (env_with (Parsed (JList [target_product True]))\<lparr>write_result := WriteRaises\<rparr>)
     \<noteq> WriteOk
   \<and> http_code (fst (check_product unconfigured
        (env_with (Parsed (JList [target_product True]))\<lparr>write_result := WriteRaises\<rparr>)
        (world_with (Some ''unavailable'')))) = 200
   \<and> field (fst (check_product unconfigured
        (env_with (Parsed (JList [target_product True]))\<lparr>write_result := WriteRaises\<rparr>)
        (world_with (Some ''unavailable'')))) ''product_status'' = Some (JStr ''available'')
   \<and> last (logged (snd (check_product unconfigured
        (env_with (Parsed (JList [target_product True]))\<lparr>write_result := WriteRaises\<rparr>)
        (world_with (Some ''unavailable''))))) = (ERROR, ''Error saving status file: '')"
proof -
  let ?e = "env_with (Parsed (JList [target_product True]))\<lparr>write_result := WriteRaises\<rparr>"
  let ?w = "world_with (Some ''unavailable'')"
  have h1: "fst (find_product ?e ?w) = Some (target_product True)"
    by code_simp
  have h2: "subscript (target_product True) ''hasStock'' = Inr (JBool True)"
    by (simp add: target_product_def)
  have h3: "write_result ?e \<noteq> WriteOk"
    by simp
  show ?thesis
    using check_survives_write_failure [OF h1 h2 h3, of unconfigured] h3
    by simp
qed

subsection \<open>Credentials\<close>

text \<open>
  Claim C10. With both Mailjet credentials empty the index reports
  \<^verbatim>\<open>email_configured = false\<close>, and yet on a transition to available \<open>check_product\<close>
  calls the notifier once, as with any credentials; when the provider refuses the
  request without credentials, the check still succeeds and its message reports
  \<^verbatim>\<open>Email sent: False\<close>.
\<close>

theorem notifier_not_gated_by_credentials:
  assumes "MAILJET_API_KEY cfg = []" and "MAILJET_SECRET_KEY cfg = []"
    and "fst (find_product e w) = Some p"
    and "subscript p ''hasStock'' = Inr (JBool True)"
    and "fst (get_last_status e w) \<noteq> Some ''available''"
  shows "field (index cfg) ''email_configured'' = Some (JBool False)
       \<and> notifier_calls (snd (check_product cfg e w)) = notifier_calls w + 1
       \<and> field (fst (check_product cfg e w)) ''status'' = Some (JStr ''success'')
       \<and> field (fst (check_product cfg e w)) ''product_status'' = Some (JStr ''available'')
       \<and> (\<not> mailjet e [] [] \<longrightarrow>
            field (fst (check_product cfg e w)) ''message'' =
              Some (JStr ''Product is AVAILABLE now! | Email sent: False''))"
proof -
  have idx: "field (index cfg) ''email_configured'' = Some (JBool False)"
    using assms(1) by (simp add: index_def field_def)
  have calls: "notifier_calls (snd (check_product cfg e w)) = notifier_calls w + 1"
    using check_product_found_world(1) [OF assms(3,4), of cfg] assms(5) by simp
  have msg: "fst (snd (determine_status cfg e (JBool True) (fst (get_last_status e w)) w)) =
      ''Product is AVAILABLE now! | Email sent: '' @ str_bool (mailjet e [] [])"
    using assms(1,2,5) by (simp add: determine_status_message)
  show ?thesis
    using idx calls msg check_product_found_response [OF assms(3,4), of cfg]
    by (simp add: field_success_response str_bool_def)
qed

theorem notifier_not_gated_by_credentials_witness:
  "\<not> mailjet (env_with (Parsed (JList [target_product True]))) [] []
   \<and> field (index unconfigured) ''email_configured'' = Some (JBool False)
   \<and> notifier_calls (snd (check_product unconfigured
        (env_with (Parsed (JList [target_product True]))) (world_with None))) = 1
   \<and> field (fst (check_product unconfigured
        (env_with (Parsed (JList [target_product True]))) (world_with None))) ''message'' =
        Some (JStr ''Product is AVAILABLE now! | Email sent: False'')"
proof -
  let ?e = "env_with (Parsed (JList [target_product True]))"
  let ?w = "world_with None"
  have k: "MAILJET_API_KEY unconfigured = []" "MAILJET_SECRET_KEY unconfigured = []"
    by (simp_all add: unconfigured_def)
  have h1: "fst (find_product ?e ?w) = Some (target_product True)"
    by code_simp
  have h2: "subscript (target_product True) ''hasStock'' = Inr (JBool True)"
    by (simp add: target_product_def)
  have h3: "fst (get_last_status ?e ?w) \<noteq> Some ''available''"
    by (simp add: get_last_status_def world_with_def)
  have h4: "\<not> mailjet ?e [] []"
    by (simp add: env_with_def)
  show ?thesis
    using notifier_not_gated_by_credentials [OF k h1 h2 h3] h4
    by (simp add: world_with_def)
qed


subsection \<open>The catalog scan\<close>

text \<open>One turn of the loop, by the kind of record it meets.\<close>

lemma scan_match:
  "name_matches item \<Longrightarrow> scan (item # items) = Inr (Some item)"
  by (auto simp: name_matches_def split: sum.splits json.splits)

lemma scan_skip:
  "has_name item \<Longrightarrow> \<not> name_matches item \<Longrightarrow> scan (item # items) = scan items"
  by (auto simp: name_matches_def has_name_def split: sum.splits json.splits)

lemma scan_abort:
  "\<not> has_name item \<Longrightarrow> \<exists>ex. scan (item # items) = Inl ex"
  by (auto simp: has_name_def split: sum.splits json.splits)

lemma scan_well_formed:
  "list_all has_name (takeWhile (\<lambda>r. \<not> name_matches r) items) \<Longrightarrow>
     scan items = Inr (first_match items)"
proof (induction items)
  case Nil
  then show ?case by (simp add: first_match_def)
next
  case (Cons item items)
  show ?case
  proof (cases "name_matches item")
    case True
    then show ?thesis by (simp add: scan_match first_match_def del: scan.simps)
  next
    case False
    with Cons.prems have "has_name item"
      and rest: "list_all has_name (takeWhile (\<lambda>r. \<not> name_matches r) items)"
      by simp_all
    with False have "scan (item # items) = scan items"
      by (simp add: scan_skip del: scan.simps)
    with Cons.IH [OF rest] False show ?thesis
      by (simp add: first_match_def)
  qed
qed

lemma scan_no_match:
  "first_match items = None \<Longrightarrow> scan items = Inr None \<or> (\<exists>ex. scan items = Inl ex)"
proof (induction items)
  case Nil
  then show ?case by simp
next
  case (Cons item items)
  from Cons.prems have no: "\<not> name_matches item" and rest: "first_match items = None"
    by (simp_all add: first_match_def split: if_splits)
  show ?case
  proof (cases "has_name item")
    case True
    with no have "scan (item # items) = scan items" by (simp add: scan_skip del: scan.simps)
    with Cons.IH [OF rest] show ?thesis by simp
  next
    case False
    then show ?thesis using scan_abort [of item items] by blast
  qed
qed

lemma scan_aborts_at_bad_record:
  "\<forall>r \<in> set pre. \<not> name_matches r \<Longrightarrow> \<not> has_name bad \<Longrightarrow>
     \<exists>ex. scan (pre @ bad # post) = Inl ex"
proof (induction pre)
  case Nil
  then show ?case using scan_abort [of bad post] by simp
next
  case (Cons item pre)
  show ?case
  proof (cases "has_name item")
    case True
    with Cons.prems have "scan ((item # pre) @ bad # post) = scan (pre @ bad # post)"
      by (simp add: scan_skip del: scan.simps)
    with Cons show ?thesis by simp
  next
    case False
    then show ?thesis using scan_abort [of item "pre @ bad # post"] by simp
  qed
qed

lemma find_product_list:
  "catalog e = Parsed (JList items) \<Longrightarrow>
     fst (find_product e w) = (case scan items of Inl ex \<Rightarrow> None | Inr r \<Rightarrow> r)"
  by (simp add: find_product_def find_product_body_def split: sum.splits exn.splits)

text \<open>
  Claim C7, as stated: for every list the catalog returns, \<open>find_product\<close> returns the
  first record whose name equals the configured one up to case, and absent when none
  does. It fails on a list whose first record has no name and whose second is the
  target: the scan stops at the first record and the result is absent.
\<close>

theorem find_product_first_match_counterexample:
  "first_match [nameless_record, target_product True] = Some (target_product True)
   \<and> fst (find_product (env_with (Parsed (JList [nameless_record, target_product True])))
        (world_with None)) = None"
  by code_simp

text \<open>
  Claim C7, amended. For every list the catalog returns in which every element before
  the first matching record (every element, when none matches) is an object with a
  string name, \<open>find_product\<close> returns the first record whose name equals the
  configured one up to case; and for every list in which no record matches, well
  formed or not, it returns absent.
\<close>

theorem find_product_first_match:
  assumes "catalog e = Parsed (JList items)"
  shows "(list_all has_name (takeWhile (\<lambda>r. \<not> name_matches r) items) \<longrightarrow>
            fst (find_product e w) = first_match items)
       \<and> (first_match items = None \<longrightarrow> fst (find_product e w) = None)"
proof (intro conjI impI)
  assume "list_all has_name (takeWhile (\<lambda>r. \<not> name_matches r) items)"
  then show "fst (find_product e w) = first_match items"
    using find_product_list [OF assms, of w] by (simp add: scan_well_formed)
next
  assume "first_match items = None"
  then show "fst (find_product e w) = None"
    using find_product_list [OF assms, of w] scan_no_match [of items] by auto
qed

theorem find_product_first_match_witness:
  "list_all has_name (takeWhile (\<lambda>r. \<not> name_matches r)
      [other_product, target_product True, target_product False])
   \<and> fst (find_product
        (env_with (Parsed (JList [other_product, target_product True, target_product False])))
        (world_with None)) = Some (target_product True)
   \<and> first_match [nameless_record, other_product] = None
   \<and> fst (find_product (env_with (Parsed (JList [nameless_record, other_product])))
        (world_with None)) = None"
proof -
  let ?xs = "[other_product, target_product True, target_product False]"
  let ?ys = "[nameless_record, other_product]"
  have c: "catalog (env_with (Parsed (JList ?xs))) = Parsed (JList ?xs)"
    "catalog (env_with (Parsed (JList ?ys))) = Parsed (JList ?ys)"
    by (simp_all add: env_with_def)
  have h1: "list_all has_name (takeWhile (\<lambda>r. \<not> name_matches r) ?xs)"
    by code_simp
  have f1: "first_match ?xs = Some (target_product True)"
    by code_simp
  have h2: "first_match ?ys = None"
    by code_simp
  show ?thesis
    using find_product_first_match [OF c(1), of "world_with None"]
      find_product_first_match [OF c(2), of "world_with None"] h1 f1 h2
    by simp
qed

text \<open>
  Claim C9. There are catalog lists that contain the target product and on which
  \<open>find_product\<close> returns absent: whenever a record that is not an object with a
  string name (no \<^verbatim>\<open>name\<close> member, or a name that is not a string) comes before
  the first matching record, the scan ends in an exception there, and the result is
  absent although a later record matches.
\<close>

theorem bad_record_masks_later_match:
  assumes "catalog e = Parsed (JList (pre @ bad # post))"
    and "\<forall>r \<in> set pre. \<not> name_matches r"
    and "\<not> has_name bad"
    and "\<exists>r \<in> set post. name_matches r"
  shows "first_match (pre @ bad # post) \<noteq> None
       \<and> (\<exists>ex. scan (pre @ bad # post) = Inl ex)
       \<and> fst (find_product e w) = None"
proof -
  have "first_match (pre @ bad # post) \<noteq> None"
    using assms(4) by (auto simp: first_match_def find_None_iff)
  moreover obtain ex where "scan (pre @ bad # post) = Inl ex"
    using scan_aborts_at_bad_record [OF assms(2,3), of post] by blast
  moreover from this have "fst (find_product e w) = None"
    using find_product_list [OF assms(1), of w] by simp
  ultimately show ?thesis by blast
qed

theorem bad_record_masks_later_match_witness:
  "\<not> has_name nameless_record
   \<and> name_matches (target_product True)
   \<and> first_match ([other_product] @ nameless_record # [target_product True]) \<noteq> None
   \<and> scan ([other_product] @ nameless_record # [target_product True]) = Inl (KeyError ''name'')
   \<and> fst (find_product
        (env_with (Parsed (JList ([other_product] @ nameless_record # [target_product True]))))
        (world_with None)) = None
   \<and> \<not> has_name (JObj [(''name'', JNull)])
   \<and> scan ([] @ JObj [(''name'', JNull)] # [target_product True]) = Inl AttributeError
   \<and> fst (find_product
        (env_with (Parsed (JList ([] @ JObj [(''name'', JNull)] # [target_product True]))))
        (world_with None)) = None"
proof -
  let ?xs = "[other_product] @ nameless_record # [target_product True]"
  let ?ys = "[] @ JObj [(''name'', JNull)] # [target_product True]"
  have c: "catalog (env_with (Parsed (JList ?xs))) = Parsed (JList ?xs)"
    "catalog (env_with (Parsed (JList ?ys))) = Parsed (JList ?ys)"
    by (simp_all add: env_with_def)
  have pre: "\<forall>r \<in> set [other_product]. \<not> name_matches r"
    "\<forall>r \<in> set ([] :: json list). \<not> name_matches r"
    by code_simp+
  have bad: "\<not> has_name nameless_record" "\<not> has_name (JObj [(''name'', JNull)])"
    by code_simp+
  have tm: "name_matches (target_product True)"
    by code_simp
  then have post: "\<exists>r \<in> set [target_product True]. name_matches r"
    by simp
  have s: "scan ?xs = Inl (KeyError ''name'')" "scan ?ys = Inl AttributeError"
    by code_simp+
  show ?thesis
    using bad_record_masks_later_match [OF c(1) pre(1) bad(1) post, of "world_with None"]
      bad_record_masks_later_match [OF c(2) pre(2) bad(2) post, of "world_with None"]
      bad tm s
    by simp
qed


subsection \<open>Sequences of requests\<close>

text \<open>A check either finds the product and its stock flag, or leaves the state of the
  store and the history of calls as they were.\<close>

lemma check_product_effect:
  "(\<exists>p v. fst (find_product e w) = Some p \<and> subscript p ''hasStock'' = Inr v)
   \<or> (field (fst (check_product cfg e w)) ''status'' = Some (JStr ''error'')
      \<and> status_file (snd (check_product cfg e w)) = status_file w
      \<and> saved (snd (check_product cfg e w)) = saved w
      \<and> notifier_calls (snd (check_product cfg e w)) = notifier_calls w)"
proof (cases "fst (find_product e w)")
  case None
  then show ?thesis
    using check_product_absent [OF None, of cfg] find_product_None(2-4) [OF None]
    by (simp add: field_error_response logging_frame)
next
  case (Some p)
  show ?thesis
  proof (cases "subscript p ''hasStock''")
    case (Inl ex)
    then show ?thesis
      using check_product_no_stock_field [OF Some Inl, of cfg]
      by (simp add: field_error_response logging_frame get_last_status_frame)
  next
    case (Inr v)
    with Some show ?thesis by blast
  qed
qed

lemma get_status_world:
  "snd (get_status e w) = snd (get_last_status e w)"
  by (simp add: get_status_def split: prod.splits)

lemma check_product_absent_world:
  assumes "fst (find_product e w) = None"
  shows "status_file (snd (check_product cfg e w)) = status_file w"
    and "saved (snd (check_product cfg e w)) = saved w"
    and "notifier_calls (snd (check_product cfg e w)) = notifier_calls w"
  using check_product_absent [OF assms, of cfg] find_product_None(2-4) [OF assms]
  by (simp_all add: logging_frame)

lemma valid_status_literals:
  "valid_status (if b then ''available'' else ''unavailable'')"
  by (simp add: valid_status_def)

lemma handle_saved:
  "\<exists>new. saved (snd (handle cfg r w)) = saved w @ new \<and> list_all valid_status new"
proof (cases r)
  case Index
  then show ?thesis by simp
next
  case (Status e)
  have "saved (snd (get_status e w)) = saved w"
    by (simp add: get_status_world get_last_status_frame)
  with Status show ?thesis by simp
next
  case (Check e)
  from check_product_effect [of e w cfg] show ?thesis
  proof
    assume "\<exists>p v. fst (find_product e w) = Some p \<and> subscript p ''hasStock'' = Inr v"
    then obtain p v where "fst (find_product e w) = Some p"
      and "subscript p ''hasStock'' = Inr v" by blast
    from check_product_found_world(2) [OF this, of cfg] Check
    show ?thesis by (simp add: valid_status_literals)
  next
    assume "field (fst (check_product cfg e w)) ''status'' = Some (JStr ''error'')
      \<and> status_file (snd (check_product cfg e w)) = status_file w
      \<and> saved (snd (check_product cfg e w)) = saved w
      \<and> notifier_calls (snd (check_product cfg e w)) = notifier_calls w"
    with Check show ?thesis by simp
  qed
qed

lemma handle_file:
  assumes "absent_or_valid (status_file w)" and "no_torn_write r"
  shows "absent_or_valid (status_file (snd (handle cfg r w)))"
proof (cases r)
  case Index
  with assms show ?thesis by simp
next
  case (Status e)
  have "status_file (snd (get_status e w)) = status_file w"
    by (simp add: get_status_world get_last_status_frame)
  with Status assms show ?thesis by simp
next
  case (Check e)
  from check_product_effect [of e w cfg] show ?thesis
  proof
    assume "\<exists>p v. fst (find_product e w) = Some p \<and> subscript p ''hasStock'' = Inr v"
    then obtain p v where "fst (find_product e w) = Some p"
      and "subscript p ''hasStock'' = Inr v" by blast
    from check_product_found_world(3) [OF this, of cfg] Check assms
    show ?thesis
      by (cases "write_result e") (simp_all add: absent_or_valid_def valid_status_def)
  next
    assume "field (fst (check_product cfg e w)) ''status'' = Some (JStr ''error'')
      \<and> status_file (snd (check_product cfg e w)) = status_file w
      \<and> saved (snd (check_product cfg e w)) = saved w
      \<and> notifier_calls (snd (check_product cfg e w)) = notifier_calls w"
    with Check assms show ?thesis by simp
  qed
qed

lemma run_saved:
  "\<exists>new. saved (run cfg rs w) = saved w @ new \<and> list_all valid_status new"
proof (induction rs arbitrary: w)
  case Nil
  show ?case by simp
next
  case (Cons r rs)
  obtain new1 where 1: "saved (snd (handle cfg r w)) = saved w @ new1"
    and v1: "list_all valid_status new1"
    using handle_saved [of cfg r w] by blast
  obtain new2 where 2: "saved (run cfg rs (snd (handle cfg r w))) =
      saved (snd (handle cfg r w)) @ new2" and v2: "list_all valid_status new2"
    using Cons.IH [of "snd (handle cfg r w)"] by blast
  have "saved (run cfg (r # rs) w) = saved w @ (new1 @ new2)"
    using 1 2 by simp
  moreover have "list_all valid_status (new1 @ new2)"
    using v1 v2 by simp
  ultimately show ?case by blast
qed

lemma run_file:
  "absent_or_valid (status_file w) \<Longrightarrow> list_all no_torn_write rs \<Longrightarrow>
     absent_or_valid (status_file (run cfg rs w))"
proof (induction rs arbitrary: w)
  case Nil
  then show ?case by simp
next
  case (Cons r rs)
  from Cons.prems have "absent_or_valid (status_file (snd (handle cfg r w)))"
    by (simp add: handle_file)
  with Cons.prems show ?case by (simp add: Cons.IH)
qed

text \<open>
  Claim C8, as stated: every write stores one of the two literals, and therefore, from
  an absent or valid file, after any sequence of checks and status requests the file
  holds one of the two literals. The conclusion fails in two ways. From an absent file,
  a status request and a check that does not find the product leave the file absent.
  From a file that holds \<^verbatim>\<open>unavailable\<close>, a check whose write fails after the file
  was opened leaves the file empty.
\<close>

theorem status_store_invariant_counterexample:
  "absent_or_valid (status_file (world_with None))
   \<and> \<not> holds_status (status_file (run unconfigured
         [Status (env_with (Raises RequestException)),
          Check (env_with (Parsed (JList [other_product])))] (world_with None)))
   \<and> holds_status (status_file (world_with (Some ''unavailable'')))
   \<and> \<not> absent_or_valid (status_file (run unconfigured
         [Check (env_with (Parsed (JList [target_product True]))\<lparr>write_result := WriteRaises\<rparr>)]
         (world_with (Some ''unavailable''))))"
proof -
  let ?e1 = "env_with (Raises RequestException)"
  let ?e2 = "env_with (Parsed (JList [other_product]))"
  let ?e3 = "env_with (Parsed (JList [target_product True]))\<lparr>write_result := WriteRaises\<rparr>"
  have "fst (find_product ?e2 (snd (get_status ?e1 (world_with None)))) = None"
    by (rule find_product_absent_cases)
  then have "status_file (snd (check_product unconfigured ?e2
      (snd (get_status ?e1 (world_with None))))) = None"
    by (simp add: check_product_absent_world get_status_world get_last_status_frame
        world_with_def)
  then have absent: "status_file (run unconfigured [Status ?e1, Check ?e2] (world_with None))
      = None"
    by simp
  have "fst (find_product ?e3 (world_with (Some ''unavailable''))) = Some (target_product True)"
    by code_simp
  moreover have "subscript (target_product True) ''hasStock'' = Inr (JBool True)"
    by (simp add: target_product_def)
  ultimately have "status_file (snd (check_product unconfigured ?e3
      (world_with (Some ''unavailable'')))) = Some []"
    by (simp add: check_product_found_world(3))
  then have torn: "status_file (run unconfigured [Check ?e3] (world_with (Some ''unavailable'')))
      = Some []"
    by simp
  show ?thesis
    unfolding absent torn
    by (simp add: absent_or_valid_def holds_status_def valid_status_def world_with_def)
qed

text \<open>
  Claim C8, amended. Every call of \<open>save_status\<close> made during any sequence of requests
  has one of the two literals \<^verbatim>\<open>available\<close> and \<^verbatim>\<open>unavailable\<close> as its argument;
  and, starting from an absent or valid file, after any sequence of requests in which
  no write fails after the file was opened, the file is absent or holds one of the two
  literals.
\<close>

theorem status_store_invariant:
  "list_all valid_status (drop (length (saved w)) (saved (run cfg rs w)))
   \<and> (absent_or_valid (status_file w) \<and> list_all no_torn_write rs \<longrightarrow>
        absent_or_valid (status_file (run cfg rs w)))"
proof -
  obtain new where "saved (run cfg rs w) = saved w @ new" and "list_all valid_status new"
    using run_saved [of cfg rs w] by blast
  then have "list_all valid_status (drop (length (saved w)) (saved (run cfg rs w)))"
    by simp
  then show ?thesis by (simp add: run_file)
qed

theorem status_store_invariant_witness:
  "absent_or_valid (status_file (world_with None))
   \<and> list_all no_torn_write
       [Check (env_with (Parsed (JList [target_product True]))),
        Status (env_with (Raises RequestException)),
        Check (env_with (Parsed (JList [target_product False]))\<lparr>write_result := OpenRaises\<rparr>),
        Check (env_with (Raises RequestException)),
        Index]
   \<and> list_all valid_status (saved (run unconfigured
       [Check (env_with (Parsed (JList [target_product True]))),
        Status (env_with (Raises RequestException)),
        Check (env_with (Parsed (JList [target_product False]))\<lparr>write_result := OpenRaises\<rparr>),
        Check (env_with (Raises RequestException)),
        Index] (world_with None)))
   \<and> absent_or_valid (status_file (run unconfigured
       [Check (env_with (Parsed (JList [target_product True]))),
        Status (env_with (Raises RequestException)),
        Check (env_with (Parsed (JList [target_product False]))\<lparr>write_result := OpenRaises\<rparr>),
        Check (env_with (Raises RequestException)),
        Index] (world_with None)))"
proof -
  let ?rs = "[Check (env_with (Parsed (JList [target_product True]))),
        Status (env_with (Raises RequestException)),
        Check (env_with (Parsed (JList [target_product False]))\<lparr>write_result := OpenRaises\<rparr>),
        Check (env_with (Raises RequestException)),
        Index]"
  have h1: "absent_or_valid (status_file (world_with None))"
    by (simp add: absent_or_valid_def world_with_def)
  have h2: "list_all no_torn_write ?rs"
    by (simp add: env_with_def)
  have s: "saved (world_with None) = []"
    by (simp add: world_with_def)
  show ?thesis
    using status_store_invariant [of "world_with None" unconfigured ?rs] h1 h2 s
    by simp
qed


subsection \<open>Status after a check\<close>

lemma strip_valid_status:
  "valid_status s \<Longrightarrow> strip s = s"
  by (auto simp: valid_status_def strip_def isspace_def)

lemma get_status_field:
  "field (fst (get_status e w)) ''last_status'' =
     Some (case fst (get_last_status e w) of None \<Rightarrow> JNull | Some s \<Rightarrow> JStr s)"
  by (simp add: get_status_def field_def split: prod.splits)

lemma get_last_status_readable:
  "status_file w = Some text \<Longrightarrow> \<not> read_raises e \<Longrightarrow>
     fst (get_last_status e w) = Some (strip text)"
  by (simp add: get_last_status_def)

lemma get_last_status_unreadable:
  "read_raises e \<Longrightarrow> fst (get_last_status e w) = None"
  by (simp add: get_last_status_def split: option.splits)

text \<open>
  Claim C5, as stated: a status request that follows a check that answered with
  success, with no write in between, returns as \<^verbatim>\<open>last_status\<close> the
  \<^verbatim>\<open>product_status\<close> of that check. It fails when reading the file raises during
  the status request (the answer is \<^verbatim>\<open>null\<close>), and when the write of the check
  failed: the check answers success with \<^verbatim>\<open>available\<close>, the file still holds
  \<^verbatim>\<open>unavailable\<close>.
\<close>

theorem status_after_check_counterexample:
  "field (fst (check_product unconfigured (env_with (Parsed (JList [target_product True])))
      (world_with (Some ''unavailable'')))) ''status'' = Some (JStr ''success'')
   \<and> field (fst (check_product unconfigured (env_with (Parsed (JList [target_product True])))
      (world_with (Some ''unavailable'')))) ''product_status'' = Some (JStr ''available'')
   \<and> field (fst (get_status (env_with (Raises RequestException)\<lparr>read_raises := True\<rparr>)
      (snd (check_product unconfigured (env_with (Parsed (JList [target_product True])))
        (world_with (Some ''unavailable'')))))) ''last_status'' = Some JNull
   \<and> field (fst (check_product unconfigured
      (env_with (Parsed (JList [target_product True]))\<lparr>write_result := OpenRaises\<rparr>)
      (world_with (Some ''unavailable'')))) ''status'' = Some (JStr ''success'')
   \<and> field (fst (check_product unconfigured
      (env_with (Parsed (JList [target_product True]))\<lparr>write_result := OpenRaises\<rparr>)
      (world_with (Some ''unavailable'')))) ''product_status'' = Some (JStr ''available'')
   \<and> field (fst (get_status (env_with (Raises RequestException))
      (snd (check_product unconfigured
        (env_with (Parsed (JList [target_product True]))\<lparr>write_result := OpenRaises\<rparr>)
        (world_with (Some ''unavailable'')))))) ''last_status'' = Some (JStr ''unavailable'')"
proof -
  let ?e = "env_with (Parsed (JList [target_product True]))"
  let ?f = "?e\<lparr>write_result := OpenRaises\<rparr>"
  let ?w = "world_with (Some ''unavailable'')"
  have found: "fst (find_product ?e ?w) = Some (target_product True)"
    "fst (find_product ?f ?w) = Some (target_product True)"
    by code_simp+
  have stock: "subscript (target_product True) ''hasStock'' = Inr (JBool True)"
    by (simp add: target_product_def)
  have r1: "field (fst (check_product unconfigured ?e ?w)) ''status'' = Some (JStr ''success'')"
    "field (fst (check_product unconfigured ?e ?w)) ''product_status'' = Some (JStr ''available'')"
    by (simp_all add: check_product_found_response [OF found(1) stock] field_success_response)
  have r2: "field (fst (check_product unconfigured ?f ?w)) ''status'' = Some (JStr ''success'')"
    "field (fst (check_product unconfigured ?f ?w)) ''product_status'' = Some (JStr ''available'')"
    by (simp_all add: check_product_found_response [OF found(2) stock] field_success_response)
  have s1: "field (fst (get_status (env_with (Raises RequestException)\<lparr>read_raises := True\<rparr>)
      (snd (check_product unconfigured ?e ?w)))) ''last_status'' = Some JNull"
    by (simp add: get_status_field get_last_status_unreadable)
  have "status_file (snd (check_product unconfigured ?f ?w)) = status_file ?w"
    by (simp add: check_product_found_world(3) [OF found(2) stock])
  then have "status_file (snd (check_product unconfigured ?f ?w)) = Some ''unavailable''"
    by (simp add: world_with_def)
  then have s2: "field (fst (get_status (env_with (Raises RequestException))
      (snd (check_product unconfigured ?f ?w)))) ''last_status'' = Some (JStr ''unavailable'')"
    by (simp add: get_status_field get_last_status_readable env_with_def strip_valid_status
        valid_status_def)
  show ?thesis using r1 r2 s1 s2 by simp
qed

text \<open>
  Claim C5, amended. A status request that follows a check which answered with
  success and whose write to the status store succeeded, with no write in between, and
  which can itself read the status file, returns as \<^verbatim>\<open>last_status\<close> the
  \<^verbatim>\<open>product_status\<close> of that check, one of the two status literals.
\<close>

theorem status_after_check:
  assumes "field (fst (check_product cfg e w)) ''status'' = Some (JStr ''success'')"
    and "write_result e = WriteOk"
    and "status_file w' = status_file (snd (check_product cfg e w))"
    and "\<not> read_raises e'"
  shows "field (fst (get_status e' w')) ''last_status'' =
           field (fst (check_product cfg e w)) ''product_status''
       \<and> (\<exists>s. valid_status s \<and>
            field (fst (get_status e' w')) ''last_status'' = Some (JStr s))"
proof -
  from check_product_effect [of e w cfg] assms(1)
  obtain p v where found: "fst (find_product e w) = Some p"
    and stock: "subscript p ''hasStock'' = Inr v"
    by auto
  let ?s = "if truthy v then ''available'' else ''unavailable''"
  have valid: "valid_status ?s"
    by (rule valid_status_literals)
  have "status_file w' = Some ?s"
    using check_product_found_world(3) [OF found stock, of cfg] assms(2,3) by simp
  then have "fst (get_last_status e' w') = Some ?s"
    using get_last_status_readable [of w' ?s e'] assms(4) strip_valid_status [OF valid]
    by simp
  then have status: "field (fst (get_status e' w')) ''last_status'' = Some (JStr ?s)"
    by (simp add: get_status_field)
  have check: "field (fst (check_product cfg e w)) ''product_status'' = Some (JStr ?s)"
    by (simp add: check_product_found_response [OF found stock] field_success_response)
  show ?thesis using status check valid by auto
qed

theorem status_after_check_witness:
  "field (fst (check_product unconfigured (env_with (Parsed (JList [target_product True])))
      (world_with (Some ''unavailable'')))) ''status'' = Some (JStr ''success'')
   \<and> write_result (env_with (Parsed (JList [target_product True]))) = WriteOk
   \<and> \<not> read_raises (env_with (Raises RequestException))
   \<and> field (fst (get_status (env_with (Raises RequestException))
      (snd (check_product unconfigured (env_with (Parsed (JList [target_product True])))
        (world_with (Some ''unavailable'')))))) ''last_status'' =
      field (fst (check_product unconfigured (env_with (Parsed (JList [target_product True])))
        (world_with (Some ''unavailable'')))) ''product_status''"
proof -
  let ?e = "env_with (Parsed (JList [target_product True]))"
  let ?w = "world_with (Some ''unavailable'')"
  have found: "fst (find_product ?e ?w) = Some (target_product True)"
    by code_simp
  have stock: "subscript (target_product True) ''hasStock'' = Inr (JBool True)"
    by (simp add: target_product_def)
  have h1: "field (fst (check_product unconfigured ?e ?w)) ''status'' = Some (JStr ''success'')"
    by (simp add: check_product_found_response [OF found stock] field_success_response)
  have h2: "write_result ?e = WriteOk"
    by (simp add: env_with_def)
  have h4: "\<not> read_raises (env_with (Raises RequestException))"
    by (simp add: env_with_def)
  show ?thesis
    using status_after_check [OF h1 h2 refl h4] h1 h2 h4 by simp
qed

end
